theory Spec2Isabelle
  imports Main
begin

section \<open>Data model\<close>

text \<open>
  The program (\<^verbatim>\<open>src/mind_taska/mind_taska.py\<close>) turns a mindmap, parsed into nested
  dictionaries, into a flat table of task records, computes one row of statistics and
  compares the new table with the stored one.

  A topic node is the dictionary the XML parser delivers for one \<^verbatim>\<open>topic\<close> element.
  The code reads five keys of it: \<^verbatim>\<open>@text\<close>, \<^verbatim>\<open>@shape\<close>, \<^verbatim>\<open>@bgColor\<close>, \<^verbatim>\<open>eicon\<close> and
  \<^verbatim>\<open>topic\<close>. Each key may be missing (\<open>None\<close> below). The value under \<^verbatim>\<open>eicon\<close> is a
  dictionary whose key \<^verbatim>\<open>@id\<close> may be missing too. The value under \<^verbatim>\<open>topic\<close> is a single
  node or a list of nodes, as the parser produces for one or for several child elements.
  The selectors \<open>at_text\<close>, \<open>at_shape\<close> and \<open>at_bgColor\<close> stand for the three attribute keys.
\<close>

datatype node =
  Node (at_text: "string option") (at_shape: "string option") (at_bgColor: "string option")
       (eicon: "string option option") (topic: topic)
and topic =
  Absent | Single node | Many "node list"

text \<open>The dictionary built for one node in \<^verbatim>\<open>_parse_node\<close>; a row of the task table.\<close>

record task_record =
  task :: string
  project :: string
  type :: "string option"
  status :: "string option"
  worker :: "string option"

text \<open>
  \<^verbatim>\<open>MTConfig\<close>: every field defaults to \<^verbatim>\<open>None\<close>. The two mapping tables are dictionaries
  from strings to strings.
\<close>

record mt_config =
  excel_path :: "string option"
  color_status_mapping :: "(string \<rightharpoonup> string) option"
  shape_type_mapping :: "(string \<rightharpoonup> string) option"

text \<open>
  The exceptions the modelled code can raise: \<^verbatim>\<open>KeyError\<close> from \<^verbatim>\<open>node["@text"]\<close> and from
  reading a column of a table that has none, \<^verbatim>\<open>AttributeError\<close> from calling \<^verbatim>\<open>.get\<close> on a
  mapping table that is \<^verbatim>\<open>None\<close>, and \<^verbatim>\<open>TypeError\<close> from subscripting a stored table that
  is \<^verbatim>\<open>None\<close>.
\<close>

datatype error = KeyError | AttributeError | TypeError

section \<open>Tree flattener\<close>

text \<open>
  Python's \<^verbatim>\<open>a or b\<close> on values that are \<^verbatim>\<open>None\<close> or a string: \<^verbatim>\<open>a\<close> when it is truthy
  (a non-empty string), otherwise \<^verbatim>\<open>b\<close>.
\<close>

definition py_or :: "string option \<Rightarrow> string option \<Rightarrow> string option" where
  "py_or a b = (case a of None \<Rightarrow> b | Some s \<Rightarrow> if s = [] then b else Some s)"

text \<open>\<^verbatim>\<open>mapping.get(node.get(key))\<close>: a missing attribute is looked up as \<^verbatim>\<open>None\<close>, which is
  no key of the table.\<close>

definition mapping_get :: "(string \<rightharpoonup> string) \<Rightarrow> string option \<Rightarrow> string option" where
  "mapping_get m k = (case k of None \<Rightarrow> None | Some s \<Rightarrow> m s)"

text \<open>\<^verbatim>\<open>parent = parent or {}\<close> followed by \<^verbatim>\<open>parent.get(field)\<close>.\<close>

definition parent_get :: "(task_record \<Rightarrow> string option) \<Rightarrow> task_record option \<Rightarrow> string option" where
  "parent_get field parent = (case parent of None \<Rightarrow> None | Some p \<Rightarrow> field p)"

text \<open>\<^verbatim>\<open>node.get("eicon", {}).get("@id")\<close>.\<close>

definition eicon_id :: "node \<Rightarrow> string option" where
  "eicon_id n = (case eicon n of None \<Rightarrow> None | Some e \<Rightarrow> e)"

text \<open>
  The dictionary display inside the \<^verbatim>\<open>try\<close> block of \<^verbatim>\<open>_parse_node\<close>. Its values are
  evaluated in order, so a missing \<^verbatim>\<open>@text\<close> raises before a mapping table is touched.
\<close>

definition build_result ::
  "mt_config \<Rightarrow> node \<Rightarrow> string \<Rightarrow> task_record option \<Rightarrow> error + task_record" where
  "build_result cfg n proj parent =
     (case at_text n of
        None \<Rightarrow> Inl KeyError
      | Some t \<Rightarrow>
          (case shape_type_mapping cfg of
             None \<Rightarrow> Inl AttributeError
           | Some sm \<Rightarrow>
               (case color_status_mapping cfg of
                  None \<Rightarrow> Inl AttributeError
                | Some cm \<Rightarrow>
                    Inr \<lparr> task = t, project = proj,
                          type = py_or (mapping_get sm (at_shape n)) (parent_get type parent),
                          status = py_or (mapping_get cm (at_bgColor n)) (parent_get status parent),
                          worker = eicon_id n \<rparr>)))"

text \<open>\<^verbatim>\<open>topic = node.get("topic", []); topic = topic if isinstance(topic, list) else [topic]\<close>.\<close>

fun as_list :: "topic \<Rightarrow> node list" where
  "as_list Absent = []"
| "as_list (Single n) = [n]"
| "as_list (Many ns) = ns"

text \<open>
  \<^verbatim>\<open>_parse_node\<close> with the list \<^verbatim>\<open>tasks\<close> it appends to passed in and returned. Only
  \<^verbatim>\<open>KeyError\<close> is caught; then \<^verbatim>\<open>result\<close> is still \<^verbatim>\<open>None\<close> when the children are visited.
  \<open>parse_topics\<close> is the \<^verbatim>\<open>for t in topic\<close> loop.
\<close>

lemma size_as_list: "size_list size (as_list (topic n)) < size n"
  by (cases n; cases "topic n") simp_all

function parse_node ::
    "mt_config \<Rightarrow> task_record list \<Rightarrow> node \<Rightarrow> string \<Rightarrow> task_record option
     \<Rightarrow> error + task_record list"
  and parse_topics ::
    "mt_config \<Rightarrow> task_record list \<Rightarrow> node list \<Rightarrow> string \<Rightarrow> task_record option
     \<Rightarrow> error + task_record list"
where
  "parse_node cfg tasks n proj parent =
     (case build_result cfg n proj parent of
        Inr result \<Rightarrow> parse_topics cfg (tasks @ [result]) (as_list (topic n)) proj (Some result)
      | Inl e \<Rightarrow>
          if e = KeyError then parse_topics cfg tasks (as_list (topic n)) proj None
          else Inl e)"
| "parse_topics cfg tasks [] proj result = Inr tasks"
| "parse_topics cfg tasks (t # ts) proj result =
     (case parse_node cfg tasks t proj result of
        Inl e \<Rightarrow> Inl e
      | Inr tasks' \<Rightarrow> parse_topics cfg tasks' ts proj result)"
  by pat_completeness auto
termination
  by (relation "measure (\<lambda>x. case x of
          Inl (cfg, tasks, n, proj, parent) \<Rightarrow> size n
        | Inr (cfg, tasks, ns, proj, result) \<Rightarrow> size_list size ns)")
     (simp_all add: size_as_list)

declare parse_node.simps [simp del]

text \<open>
  \<^verbatim>\<open>extract_tasks\<close> from \<^verbatim>\<open>main_node\<close> on, the list of top-level topics of the parsed
  document (the parser delivers a list when the document has several of them).
  \<^verbatim>\<open>project["@text"]\<close> is evaluated outside any \<^verbatim>\<open>try\<close>, so a top-level topic without a
  text ends the run.
\<close>

fun extract_loop ::
  "mt_config \<Rightarrow> task_record list \<Rightarrow> node list \<Rightarrow> error + task_record list" where
  "extract_loop cfg tasks [] = Inr tasks"
| "extract_loop cfg tasks (p # ps) =
     (case at_text p of
        None \<Rightarrow> Inl KeyError
      | Some label \<Rightarrow>
          (case parse_node cfg tasks p label None of
             Inl e \<Rightarrow> Inl e
           | Inr tasks' \<Rightarrow> extract_loop cfg tasks' ps))"

text \<open>
  A task table is a data frame. \<^verbatim>\<open>pd.DataFrame(tasks)\<close> of an empty list has no columns
  at all, and reading a column of it raises \<^verbatim>\<open>KeyError\<close>; a frame built from at least one
  record, or read from a sheet with a header row, has the five columns. An empty cell read
  back from a sheet compares unequal to every string, as \<^verbatim>\<open>None\<close> does; both are \<open>None\<close> here.
\<close>

datatype task_frame = NoColumns | Frame "task_record list"

definition DataFrame :: "task_record list \<Rightarrow> task_frame" where
  "DataFrame rs = (if rs = [] then NoColumns else Frame rs)"

definition extract_tasks :: "mt_config \<Rightarrow> node list \<Rightarrow> error + task_frame" where
  "extract_tasks cfg main_node =
     (case extract_loop cfg [] main_node of
        Inl e \<Rightarrow> Inl e
      | Inr tasks \<Rightarrow> Inr (DataFrame tasks))"

section \<open>Stat computer\<close>

text \<open>
  A row of the stat table is the dictionary \<^verbatim>\<open>stat\<close>: its keys are column names, the fixed
  ones and one per worker, all in the same dictionary. A cell holds the time stamp or a
  count. The time stamp \<^verbatim>\<open>datetime.now()\<close> is a parameter.
\<close>

datatype cell = Date nat | Count nat

type_synonym stat_row = "string \<rightharpoonup> cell"

text \<open>\<^verbatim>\<open>Series.unique()\<close>: the distinct values in order of first appearance.\<close>

definition unique :: "'a list \<Rightarrow> 'a list" where
  "unique xs = rev (remdups (rev xs))"

definition opened :: "task_record list \<Rightarrow> nat" where
  "opened rs = length (filter (\<lambda>t. status t \<noteq> Some ''complete'') rs)"

definition opened_of :: "task_record list \<Rightarrow> string \<Rightarrow> nat" where
  "opened_of rs w =
     length (filter (\<lambda>t. worker t = Some w \<and> status t \<noteq> Some ''complete'') rs)"

definition worker_step :: "task_record list \<Rightarrow> string option \<Rightarrow> stat_row \<Rightarrow> stat_row" where
  "worker_step rs w stat =
     (case w of None \<Rightarrow> stat | Some k \<Rightarrow> stat(k \<mapsto> Count (opened_of rs k)))"

definition get_stat :: "nat \<Rightarrow> task_frame \<Rightarrow> error + stat_row list" where
  "get_stat now tasks =
     (case tasks of
        NoColumns \<Rightarrow> Inl KeyError
      | Frame rs \<Rightarrow>
          Inr [fold (worker_step rs) (unique (map worker rs))
                 [''date'' \<mapsto> Date now,
                  ''opened tasks'' \<mapsto> Count (opened rs),
                  ''new tasks'' \<mapsto> Count 0,
                  ''closed tasks'' \<mapsto> Count 0]])"

section \<open>Stat differ and history store\<close>

text \<open>The object state: \<^verbatim>\<open>self.config\<close>, \<^verbatim>\<open>self.tasks\<close> and \<^verbatim>\<open>self.stats\<close>.\<close>

record mind_taska =
  self_config :: mt_config
  self_tasks :: "task_frame option"
  self_stats :: "stat_row list option"

definition complete_mark :: string where
  "complete_mark = ''complete''"

text \<open>The rows \<^verbatim>\<open>iterrows()\<close> yields.\<close>

fun iterrows :: "task_frame \<Rightarrow> task_record list" where
  "iterrows NoColumns = []"
| "iterrows (Frame rs) = rs"

text \<open>
  Reading the columns \<^verbatim>\<open>task\<close> and \<^verbatim>\<open>project\<close> of \<^verbatim>\<open>self.tasks\<close>, as each round of the loop
  does first.
\<close>

fun stored_rows :: "task_frame option \<Rightarrow> error + task_record list" where
  "stored_rows None = Inl TypeError"
| "stored_rows (Some NoColumns) = Inl KeyError"
| "stored_rows (Some (Frame rs)) = Inr rs"

definition same_task :: "task_record list \<Rightarrow> task_record \<Rightarrow> task_record list" where
  "same_task prev t = filter (\<lambda>p. task p = task t \<and> project p = project t) prev"

text \<open>
  One round of the loop in \<^verbatim>\<open>diff_stat\<close>, on the pair of counters. \<^verbatim>\<open>iloc[0]\<close> is read only
  where \<^verbatim>\<open>same_task\<close> is not empty. The last branch compares with the literal
  \<^verbatim>\<open>"complite"\<close>, as the source does.
\<close>

definition diff_row :: "task_record list \<Rightarrow> task_record \<Rightarrow> nat \<times> nat \<Rightarrow> nat \<times> nat" where
  "diff_row prev t counts =
     (let new_tasks_count = fst counts;
          closed_tasks_count = snd counts;
          same = same_task prev t;
          t_new_count = length same
      in if t_new_count = 0 then
           (if status t \<noteq> Some complete_mark
            then (new_tasks_count + 1, closed_tasks_count)
            else (new_tasks_count, closed_tasks_count))
         else if t_new_count \<noteq> 0 \<and> status (hd same) \<noteq> Some complete_mark
                 \<and> status t = Some complete_mark then
           (new_tasks_count, closed_tasks_count + 1)
         else if status t = Some ''complite'' \<and> status (hd same) \<noteq> Some complete_mark then
           (new_tasks_count + 1, closed_tasks_count)
         else (new_tasks_count, closed_tasks_count))"

fun diff_loop ::
  "task_frame option \<Rightarrow> task_record list \<Rightarrow> nat \<times> nat \<Rightarrow> error + nat \<times> nat" where
  "diff_loop stored [] counts = Inr counts"
| "diff_loop stored (t # ts) counts =
     (case stored_rows stored of
        Inl e \<Rightarrow> Inl e
      | Inr prev \<Rightarrow> diff_loop stored ts (diff_row prev t counts))"

definition diff_stat ::
  "mind_taska \<Rightarrow> task_frame \<Rightarrow> stat_row list \<Rightarrow> error + stat_row list" where
  "diff_stat self new_tasks new_stats =
     (if excel_path (self_config self) = None then Inr new_stats
      else
        (case diff_loop (self_tasks self) (iterrows new_tasks) (0, 0) of
           Inl e \<Rightarrow> Inl e
         | Inr (new_tasks_count, closed_tasks_count) \<Rightarrow>
             Inr (map (\<lambda>row. row(''new tasks'' \<mapsto> Count new_tasks_count,
                                  ''closed tasks'' \<mapsto> Count closed_tasks_count))
                    new_stats)))"

text \<open>
  \<^verbatim>\<open>update_data\<close>. \<^verbatim>\<open>pd.concat\<close> drops an operand that is \<^verbatim>\<open>None\<close> and keeps the rows of the
  others in order.
\<close>

definition concat_stats :: "stat_row list option \<Rightarrow> stat_row list \<Rightarrow> stat_row list" where
  "concat_stats old new_stats = (case old of None \<Rightarrow> new_stats | Some rows \<Rightarrow> rows @ new_stats)"

definition update_data :: "mind_taska \<Rightarrow> task_frame \<Rightarrow> stat_row list \<Rightarrow> mind_taska" where
  "update_data self new_tasks new_stats =
     self \<lparr> self_tasks := Some new_tasks,
            self_stats := Some (concat_stats (self_stats self) new_stats) \<rparr>"


section \<open>Traversal order and inheritance\<close>

text \<open>
  Pre-order in document order: a node, then the pre-order of each of its children in turn.
  The children are the normalised sequence \<open>as_list (topic n)\<close>.
\<close>

function preorder :: "node \<Rightarrow> node list"
  and preorder_list :: "node list \<Rightarrow> node list"
where
  "preorder n = n # preorder_list (as_list (topic n))"
| "preorder_list [] = []"
| "preorder_list (t # ts) = preorder t @ preorder_list ts"
  by pat_completeness auto
termination
  by (relation "measure (\<lambda>x. case x of Inl n \<Rightarrow> size n | Inr ns \<Rightarrow> size_list size ns)")
     (simp_all add: size_as_list)

declare preorder.simps [simp del]

text \<open>
  The same traversal, each node paired with the chain of its ancestors inside the tree,
  nearest first.
\<close>

function walk :: "node list \<Rightarrow> node \<Rightarrow> (node \<times> node list) list"
  and walks :: "node list \<Rightarrow> node list \<Rightarrow> (node \<times> node list) list"
where
  "walk anc n = (n, anc) # walks (n # anc) (as_list (topic n))"
| "walks anc [] = []"
| "walks anc (t # ts) = walk anc t @ walks anc ts"
  by pat_completeness auto
termination
  by (relation "measure (\<lambda>x. case x of Inl (anc, n) \<Rightarrow> size n
                                        | Inr (anc, ns) \<Rightarrow> size_list size ns)")
     (simp_all add: size_as_list)

declare walk.simps [simp del]

text \<open>
  What \<^verbatim>\<open>parent.get(field)\<close> holds when a node is reached through the chain \<open>ch\<close> of
  ancestors, \<open>base\<close> being the value the top call received: an ancestor without \<^verbatim>\<open>@text\<close>
  passes nothing down, any other passes its own lookup or what it received.
\<close>

fun inherited :: "(node \<Rightarrow> string option) \<Rightarrow> string option \<Rightarrow> node list \<Rightarrow> string option" where
  "inherited own base [] = base"
| "inherited own base (a # as) =
     (if at_text a = None then None else py_or (own a) (inherited own base as))"

text \<open>The record built for the node \<open>x\<close> reached through the chain \<open>ch\<close>; none without \<^verbatim>\<open>@text\<close>.\<close>

fun node_record ::
  "(string \<rightharpoonup> string) \<Rightarrow> (string \<rightharpoonup> string) \<Rightarrow> string \<Rightarrow> string option \<Rightarrow> string option
   \<Rightarrow> node \<times> node list \<Rightarrow> task_record option" where
  "node_record sm cm proj bt bs (x, ch) =
     (case at_text x of
        None \<Rightarrow> None
      | Some t \<Rightarrow>
          Some \<lparr> task = t, project = proj,
                 type = py_or (mapping_get sm (at_shape x))
                          (inherited (\<lambda>a. mapping_get sm (at_shape a)) bt ch),
                 status = py_or (mapping_get cm (at_bgColor x))
                          (inherited (\<lambda>a. mapping_get cm (at_bgColor a)) bs ch),
                 worker = eicon_id x \<rparr>)"

text \<open>
  A node's own resolved value: the entry of the mapping table for its attribute, when there
  is one and it is truthy.
\<close>

definition resolve :: "(string \<rightharpoonup> string) \<Rightarrow> string option \<Rightarrow> string option" where
  "resolve m k = py_or (mapping_get m k) None"

text \<open>
  The value of the nearest node of a chain that resolves one of its own, absent when no
  node of the chain does. This follows the wording of the specification.
\<close>

fun nearest_resolved :: "(node \<Rightarrow> string option) \<Rightarrow> node list \<Rightarrow> string option" where
  "nearest_resolved own [] = None"
| "nearest_resolved own (a # as) =
     (case own a of Some v \<Rightarrow> Some v | None \<Rightarrow> nearest_resolved own as)"

section \<open>Example data\<close>

text \<open>Records and a store used to evaluate the theorems below at concrete inputs.\<close>

definition rec_open :: task_record where
  "rec_open = \<lparr>task = ''T'', project = ''P'', type = None, status = None, worker = Some ''ann''\<rparr>"

definition rec_done :: task_record where
  "rec_done = \<lparr>task = ''T'', project = ''P'', type = None, status = Some ''complete'',
               worker = Some ''ann''\<rparr>"

definition rec_other :: task_record where
  "rec_other = \<lparr>task = ''U'', project = ''P'', type = None, status = None, worker = None\<rparr>"

definition rec_clash :: task_record where
  "rec_clash = \<lparr>task = ''T'', project = ''P'', type = None, status = None,
                worker = Some ''new tasks''\<rparr>"

definition rec_typo :: task_record where
  "rec_typo = \<lparr>task = ''T'', project = ''P'', type = None, status = Some ''complite'',
               worker = None\<rparr>"

definition store_of :: "task_record list \<Rightarrow> mind_taska" where
  "store_of rs =
     \<lparr> self_config = \<lparr> excel_path = Some ''store.xlsx'', color_status_mapping = None,
                        shape_type_mapping = None \<rparr>,
       self_tasks = Some (Frame rs), self_stats = Some [] \<rparr>"

lemmas ex_defs = rec_open_def rec_done_def rec_other_def rec_clash_def rec_typo_def store_of_def

definition ex_cfg :: mt_config where
  "ex_cfg = \<lparr> excel_path = None,
              color_status_mapping = Some [''#ff0000'' \<mapsto> ''complete''],
              shape_type_mapping = Some [''rect'' \<mapsto> ''bug''] \<rparr>"

definition ex_leaf :: node where
  "ex_leaf = Node (Some ''g'') None None None Absent"

definition ex_mid :: node where
  "ex_mid = Node None None None None (Single ex_leaf)"

definition ex_root :: node where
  "ex_root = Node (Some ''P'') (Some ''rect'') (Some ''#ff0000'') (Some (Some ''ann''))
               (Many [ex_mid])"

definition ex_kid :: node where
  "ex_kid = Node (Some ''k'') None None None Absent"

definition ex_full :: node where
  "ex_full = Node (Some ''P'') (Some ''rect'') (Some ''#ff0000'') (Some (Some ''ann''))
               (Many [Node (Some ''m'') None None None (Single ex_kid)])"

definition rec_P :: task_record where
  "rec_P = \<lparr>task = ''P'', project = ''P'', type = Some ''bug'', status = Some ''complete'',
            worker = Some ''ann''\<rparr>"

lemmas tree_defs = ex_cfg_def ex_leaf_def ex_mid_def ex_root_def ex_kid_def ex_full_def rec_P_def

section \<open>Properties of the history store\<close>

text \<open>
  Claim C8. Whatever the state and the arguments, \<^verbatim>\<open>update_data\<close> makes \<^verbatim>\<open>new_tasks\<close> the task
  table and makes the stat table the old stat rows (none when there was no table) followed
  by the rows of \<^verbatim>\<open>new_stats\<close>: every row stored before is still there, in its place.
\<close>

theorem update_data_grows:
  "self_tasks (update_data self new_tasks new_stats) = Some new_tasks
   \<and> self_stats (update_data self new_tasks new_stats)
       = Some ((case self_stats self of None \<Rightarrow> [] | Some rows \<Rightarrow> rows) @ new_stats)
   \<and> self_config (update_data self new_tasks new_stats) = self_config self"
  by (simp add: update_data_def concat_stats_def split: option.split)

section \<open>Properties of the stat differ\<close>

lemma diff_loop_fold:
  "diff_loop (Some (Frame prev)) ts counts = Inr (fold (diff_row prev) ts counts)"
  by (induction ts arbitrary: counts) simp_all

text \<open>
  Claim C4. For a new record \<open>t\<close> and the rows \<open>prev\<close> of the stored table: when no stored
  row has the key of \<open>t\<close>, the round adds one to \<^verbatim>\<open>new tasks\<close> exactly when the status of \<open>t\<close>
  is not \<^verbatim>\<open>complete\<close> and leaves \<^verbatim>\<open>closed tasks\<close> alone; when the first stored row with that
  key is not \<^verbatim>\<open>complete\<close> and \<open>t\<close> is, the round adds one to \<^verbatim>\<open>closed tasks\<close>; the round
  consults only the first stored row with that key; and the loop runs this round for every
  new record in turn.
\<close>

theorem diff_row_classifies:
  "(same_task prev t = [] \<longrightarrow>
      diff_row prev t (n, c) = (if status t \<noteq> Some ''complete'' then (n + 1, c) else (n, c)))
   \<and> (\<forall>p ps. same_task prev t = p # ps \<and> status p \<noteq> Some ''complete''
          \<and> status t = Some ''complete'' \<longrightarrow> diff_row prev t (n, c) = (n, c + 1))
   \<and> (\<forall>p ps. same_task prev t = p # ps \<longrightarrow> diff_row prev t (n, c) = diff_row [p] t (n, c))
   \<and> diff_loop (Some (Frame prev)) (ts @ [t]) (n, c)
       = Inr (diff_row prev t (fold (diff_row prev) ts (n, c)))"
  by (auto simp: diff_row_def Let_def complete_mark_def diff_loop_fold same_task_def
      filter_eq_Cons_iff)

theorem diff_row_classifies_witness:
  "same_task [rec_open] rec_other = []
   \<and> diff_row [rec_open] rec_other (0, 0) = (1, 0)
   \<and> same_task [rec_open, rec_done] rec_done = [rec_open, rec_done]
   \<and> status rec_open \<noteq> Some ''complete'' \<and> status rec_done = Some ''complete''
   \<and> diff_row [rec_open, rec_done] rec_done (0, 0) = (0, 1)
   \<and> diff_row [rec_open, rec_done] rec_done (0, 0) = diff_row [rec_open] rec_done (0, 0)"
proof -
  have a: "same_task [rec_open] rec_other = []"
    by (simp add: same_task_def ex_defs)
  have b: "same_task [rec_open, rec_done] rec_done = [rec_open, rec_done]"
    by (simp add: same_task_def ex_defs)
  have c: "status rec_open \<noteq> Some ''complete''" "status rec_done = Some ''complete''"
    by (simp_all add: ex_defs)
  have d: "status rec_other \<noteq> Some ''complete''"
    by (simp add: ex_defs)
  show ?thesis
    using a b c d diff_row_classifies [of "[rec_open]" rec_other 0 0 "[]"]
      diff_row_classifies [of "[rec_open, rec_done]" rec_done 0 0 "[]"]
    by auto
qed

text \<open>
  Claim C9, as amended. When the first stored row with the key of the new record is
  \<^verbatim>\<open>complete\<close>, the round changes neither counter, whatever the status of the new record.
\<close>

theorem diff_row_first_complete:
  "same_task prev t = p # ps \<Longrightarrow> status p = Some ''complete'' \<Longrightarrow> diff_row prev t counts = counts"
  by (simp add: diff_row_def Let_def complete_mark_def)

theorem diff_row_first_complete_witness:
  "same_task [rec_done, rec_open] rec_open = [rec_done, rec_open]
   \<and> status rec_done = Some ''complete''
   \<and> diff_row [rec_done, rec_open] rec_open (3, 5) = (3, 5)"
proof -
  have a: "same_task [rec_done, rec_open] rec_open = [rec_done, rec_open]"
    by (simp add: same_task_def ex_defs)
  have b: "status rec_done = Some ''complete''"
    by (simp add: ex_defs)
  show ?thesis
    using a b diff_row_first_complete [OF a b, of "(3, 5)"] by simp
qed

text \<open>
  Claim C9 as stated fails when a stored row with the same key that is \<^verbatim>\<open>complete\<close> comes
  after one that is not: the stored table holds \<open>rec_open\<close> and then \<open>rec_done\<close>, both with the
  key of the new record \<open>rec_done\<close>; the differ consults \<open>rec_open\<close> and counts a closed task.
\<close>

theorem diff_row_later_complete_counterexample:
  "rec_done \<in> set [rec_open, rec_done]
   \<and> task rec_done = task rec_done \<and> project rec_done = project rec_done
   \<and> status rec_done = Some ''complete''
   \<and> diff_loop (Some (Frame [rec_open, rec_done])) [rec_done] (0, 0) = Inr (0, 1)"
  by (simp add: ex_defs diff_row_def same_task_def complete_mark_def)

lemma same_task_distinct:
  "distinct (map (\<lambda>t. (task t, project t)) rs) \<Longrightarrow> t \<in> set rs \<Longrightarrow> same_task rs t = [t]"
proof (induction rs)
  case Nil
  then show ?case by simp
next
  case (Cons r rs)
  show ?case
  proof (cases "t = r")
    case True
    have "filter (\<lambda>p. task p = task r \<and> project p = project r) rs = []"
      using Cons.prems(1) by (auto simp: filter_empty_conv image_iff)
    with True show ?thesis by (simp add: same_task_def)
  next
    case False
    with Cons.prems have t: "t \<in> set rs" by simp
    then have "(task r, project r) \<noteq> (task t, project t)"
      using Cons.prems(1) by (auto simp: image_iff)
    moreover have "same_task rs t = [t]"
      using Cons.IH Cons.prems(1) t by simp
    ultimately show ?thesis by (auto simp: same_task_def)
  qed
qed

lemma diff_row_unchanged:
  "same_task prev t = [t] \<Longrightarrow> status t \<noteq> Some ''complite'' \<Longrightarrow> diff_row prev t counts = counts"
  by (simp add: diff_row_def Let_def complete_mark_def)

lemma fold_diff_row_unchanged:
  "\<forall>t\<in>set ts. same_task prev t = [t] \<and> status t \<noteq> Some ''complite''
   \<Longrightarrow> fold (diff_row prev) ts counts = counts"
  by (induction ts arbitrary: counts) (simp_all add: diff_row_unchanged)

text \<open>
  Claim C3, as amended. When the keys (task, project) of the table are pairwise distinct and
  no status is the literal \<^verbatim>\<open>complite\<close>, the differ run with a stored table equal to the new
  one sets \<^verbatim>\<open>new tasks\<close> and \<^verbatim>\<open>closed tasks\<close> to 0 in every row of the snapshot.
\<close>

theorem diff_stat_unchanged_table:
  assumes "distinct (map (\<lambda>t. (task t, project t)) (iterrows tasks))"
    and "\<forall>t\<in>set (iterrows tasks). status t \<noteq> Some ''complite''"
    and "excel_path (self_config self) \<noteq> None"
    and "self_tasks self = Some tasks"
  shows "diff_stat self tasks new_stats
         = Inr (map (\<lambda>row. row(''new tasks'' \<mapsto> Count 0, ''closed tasks'' \<mapsto> Count 0)) new_stats)"
proof (cases tasks)
  case NoColumns
  with assms(3,4) show ?thesis by (auto simp: diff_stat_def)
next
  case (Frame rs)
  have "fold (diff_row rs) rs (0, 0) = (0, 0)"
    using assms(1,2) Frame by (intro fold_diff_row_unchanged) (simp add: same_task_distinct)
  with assms(3,4) Frame show ?thesis by (auto simp: diff_stat_def diff_loop_fold)
qed

theorem diff_stat_unchanged_table_witness:
  "distinct (map (\<lambda>t. (task t, project t)) (iterrows (Frame [rec_done, rec_other])))
   \<and> status rec_done \<noteq> Some ''complite'' \<and> status rec_other \<noteq> Some ''complite''
   \<and> excel_path (self_config (store_of [rec_done, rec_other])) \<noteq> None
   \<and> self_tasks (store_of [rec_done, rec_other]) = Some (Frame [rec_done, rec_other])
   \<and> diff_stat (store_of [rec_done, rec_other]) (Frame [rec_done, rec_other]) [Map.empty]
       = Inr [[''new tasks'' \<mapsto> Count 0, ''closed tasks'' \<mapsto> Count 0]]"
proof -
  have a: "distinct (map (\<lambda>t. (task t, project t)) (iterrows (Frame [rec_done, rec_other])))"
    by (simp add: ex_defs)
  have b: "\<forall>t\<in>set (iterrows (Frame [rec_done, rec_other])). status t \<noteq> Some ''complite''"
    by (simp add: ex_defs)
  have c: "excel_path (self_config (store_of [rec_done, rec_other])) \<noteq> None"
    by (simp add: ex_defs)
  have d: "self_tasks (store_of [rec_done, rec_other]) = Some (Frame [rec_done, rec_other])"
    by (simp add: ex_defs)
  show ?thesis
    using a b c d diff_stat_unchanged_table [OF a b c d, of "[Map.empty]"] by simp
qed

text \<open>
  Claim C3 as stated fails on a table with a repeated key: the table holds \<open>rec_open\<close> and
  then \<open>rec_done\<close>, which share their key. Run against itself, the second record is compared
  with the first stored row of that key, which is open, and is counted as closed.
\<close>

theorem diff_stat_duplicate_key_counterexample:
  "self_tasks (store_of [rec_open, rec_done]) = Some (Frame [rec_open, rec_done])
   \<and> map_sum id (map (\<lambda>row. (row ''new tasks'', row ''closed tasks'')))
        (diff_stat (store_of [rec_open, rec_done]) (Frame [rec_open, rec_done]) [Map.empty])
      = Inr [(Some (Count 0), Some (Count 1))]"
  by (simp add: ex_defs diff_stat_def diff_row_def same_task_def complete_mark_def)

text \<open>
  The last branch of the round compares with \<^verbatim>\<open>"complite"\<close>: an unchanged table with one
  record of that status is counted as one new task.
\<close>

lemma diff_stat_complite_unchanged:
  "map_sum id (map (\<lambda>row. (row ''new tasks'', row ''closed tasks'')))
        (diff_stat (store_of [rec_typo]) (Frame [rec_typo]) [Map.empty])
      = Inr [(Some (Count 1), Some (Count 0))]"
  by (simp add: ex_defs diff_stat_def diff_row_def same_task_def complete_mark_def)

section \<open>Properties of the stat computer\<close>

lemma fold_worker_step:
  "fold (worker_step rs) ws stat k
   = (if Some k \<in> set ws then Some (Count (opened_of rs k)) else stat k)"
  by (induction ws arbitrary: stat) (auto simp: worker_step_def split: option.splits)

lemma set_unique: "set (unique xs) = set xs"
  by (simp add: unique_def)

text \<open>
  Claim C6, as amended. For a task table that has its columns and in which no worker is named
  like one of the four fixed columns, \<^verbatim>\<open>get_stat\<close> returns one row in which \<^verbatim>\<open>opened tasks\<close> is
  the number of records whose status is not \<^verbatim>\<open>complete\<close> (a missing status counts as not
  complete), \<^verbatim>\<open>new tasks\<close> and \<^verbatim>\<open>closed tasks\<close> are 0, \<^verbatim>\<open>date\<close> is the time stamp, every worker
  that occurs has a column holding the number of that worker's records that are not
  \<^verbatim>\<open>complete\<close>, and there is no other column.
\<close>

theorem get_stat_snapshot:
  assumes "\<forall>t\<in>set rs. worker t \<notin> {Some ''date'', Some ''opened tasks'', Some ''new tasks'',
                                     Some ''closed tasks''}"
  shows "\<exists>stat. get_stat now (Frame rs) = Inr [stat]
      \<and> stat ''opened tasks''
          = Some (Count (length (filter (\<lambda>t. status t \<noteq> Some ''complete'') rs)))
      \<and> stat ''new tasks'' = Some (Count 0)
      \<and> stat ''closed tasks'' = Some (Count 0)
      \<and> stat ''date'' = Some (Date now)
      \<and> (\<forall>w. Some w \<in> set (map worker rs) \<longrightarrow>
            stat w = Some (Count (length
              (filter (\<lambda>t. worker t = Some w \<and> status t \<noteq> Some ''complete'') rs))))
      \<and> dom stat = {''date'', ''opened tasks'', ''new tasks'', ''closed tasks''}
                    \<union> {w. Some w \<in> set (map worker rs)}"
proof -
  let ?stat = "fold (worker_step rs) (unique (map worker rs))
                 [''date'' \<mapsto> Date now,
                  ''opened tasks'' \<mapsto> Count (opened rs),
                  ''new tasks'' \<mapsto> Count 0,
                  ''closed tasks'' \<mapsto> Count 0]"
  have r: "Some ''date'' \<notin> set (map worker rs)" "Some ''opened tasks'' \<notin> set (map worker rs)"
    "Some ''new tasks'' \<notin> set (map worker rs)" "Some ''closed tasks'' \<notin> set (map worker rs)"
    using assms by force+
  have 1: "?stat ''opened tasks'' = Some (Count (opened rs))"
    using r by (simp add: fold_worker_step set_unique)
  have 2: "?stat ''new tasks'' = Some (Count 0)"
    using r by (simp add: fold_worker_step set_unique)
  have 3: "?stat ''closed tasks'' = Some (Count 0)"
    using r by (simp add: fold_worker_step set_unique)
  have 4: "?stat ''date'' = Some (Date now)"
    using r by (simp add: fold_worker_step set_unique)
  have 5: "\<forall>w. Some w \<in> set (map worker rs) \<longrightarrow> ?stat w = Some (Count (opened_of rs w))"
    by (simp add: fold_worker_step set_unique)
  have 6: "dom ?stat = {''date'', ''opened tasks'', ''new tasks'', ''closed tasks''}
                    \<union> {w. Some w \<in> set (map worker rs)}"
  proof (rule set_eqI)
    fix k
    show "k \<in> dom ?stat \<longleftrightarrow> k \<in> {''date'', ''opened tasks'', ''new tasks'', ''closed tasks''}
                    \<union> {w. Some w \<in> set (map worker rs)}"
      using 1 2 3 4 by (auto simp: fold_worker_step set_unique dom_def split: if_splits)
  qed
  have "get_stat now (Frame rs) = Inr [?stat]"
    by (simp add: get_stat_def)
  with 1 2 3 4 5 6 show ?thesis
    unfolding opened_def opened_of_def by blast
qed

theorem get_stat_snapshot_witness:
  "\<exists>stat. get_stat 7 (Frame [rec_open, rec_done, rec_other]) = Inr [stat]
      \<and> stat ''opened tasks'' = Some (Count 2)
      \<and> stat ''new tasks'' = Some (Count 0)
      \<and> stat ''closed tasks'' = Some (Count 0)
      \<and> stat ''ann'' = Some (Count 1)"
proof -
  have a: "\<forall>t\<in>set [rec_open, rec_done, rec_other].
             worker t \<notin> {Some ''date'', Some ''opened tasks'', Some ''new tasks'',
                          Some ''closed tasks''}"
    by (simp add: ex_defs)
  from get_stat_snapshot [OF a, of 7] obtain stat where
    s: "get_stat 7 (Frame [rec_open, rec_done, rec_other]) = Inr [stat]"
      "stat ''opened tasks''
       = Some (Count (length (filter (\<lambda>t. status t \<noteq> Some ''complete'')
                                [rec_open, rec_done, rec_other])))"
      "stat ''new tasks'' = Some (Count 0)"
      "stat ''closed tasks'' = Some (Count 0)"
      "\<forall>w. Some w \<in> set (map worker [rec_open, rec_done, rec_other]) \<longrightarrow>
         stat w = Some (Count (length
           (filter (\<lambda>t. worker t = Some w \<and> status t \<noteq> Some ''complete'')
              [rec_open, rec_done, rec_other])))"
    by blast
  have o: "stat ''opened tasks'' = Some (Count 2)"
    using s(2) by (simp add: ex_defs)
  have "Some ''ann'' \<in> set (map worker [rec_open, rec_done, rec_other])"
    by (simp add: ex_defs)
  with s(5) have "stat ''ann''
      = Some (Count (length
           (filter (\<lambda>t. worker t = Some ''ann'' \<and> status t \<noteq> Some ''complete'')
              [rec_open, rec_done, rec_other])))"
    by blast
  then have w: "stat ''ann'' = Some (Count 1)"
    by (simp add: ex_defs)
  from s(1) o s(3) s(4) w show ?thesis by blast
qed

text \<open>
  Claim C6 as stated fails for a worker named like a fixed column: the worker's counter is
  written under the same key of the dictionary and replaces the value of \<^verbatim>\<open>new tasks\<close>. It
  also fails for the empty record sequence, whose data frame has no \<^verbatim>\<open>status\<close> column.
\<close>

theorem get_stat_reserved_name_counterexample:
  "map_sum id (map (\<lambda>stat. stat ''new tasks'')) (get_stat 7 (Frame [rec_clash]))
     = Inr [Some (Count 1)]
   \<and> get_stat 7 (DataFrame []) = Inl KeyError"
  by (simp add: rec_clash_def get_stat_def unique_def worker_step_def opened_of_def
      DataFrame_def)


section \<open>Properties of the tree flattener\<close>

lemma map_fst_walk:
  "map fst (walk anc n) = preorder n"
  "map fst (walks anc ns) = preorder_list ns"
  by (induction anc n and anc ns rule: walk_walks.induct)
     (simp_all add: walk.simps preorder.simps)

text \<open>
  With both mapping tables present a call always returns, and what it appends is the
  pre-order sequence of the records of the nodes that have a text.
\<close>

lemma parse_walk:
  "shape_type_mapping cfg = Some sm \<Longrightarrow> color_status_mapping cfg = Some cm \<Longrightarrow>
   parent_get type parent = inherited (\<lambda>a. mapping_get sm (at_shape a)) bt anc \<Longrightarrow>
   parent_get status parent = inherited (\<lambda>a. mapping_get cm (at_bgColor a)) bs anc \<Longrightarrow>
   parse_node cfg tasks n proj parent
   = Inr (tasks @ List.map_filter (node_record sm cm proj bt bs) (walk anc n))"
  "shape_type_mapping cfg = Some sm \<Longrightarrow> color_status_mapping cfg = Some cm \<Longrightarrow>
   parent_get type result = inherited (\<lambda>a. mapping_get sm (at_shape a)) bt anc \<Longrightarrow>
   parent_get status result = inherited (\<lambda>a. mapping_get cm (at_bgColor a)) bs anc \<Longrightarrow>
   parse_topics cfg tasks ns proj result
   = Inr (tasks @ List.map_filter (node_record sm cm proj bt bs) (walks anc ns))"
proof (induction cfg tasks n proj parent and cfg tasks ns proj result
       arbitrary: anc and anc rule: parse_node_parse_topics.induct)
  case (1 cfg tasks n proj parent)
  note m = "1.prems"(1,2)
  show ?case
  proof (cases "at_text n")
    case None
    then have b: "build_result cfg n proj parent = Inl KeyError"
      by (simp add: build_result_def)
    have "parse_topics cfg tasks (as_list (topic n)) proj None
          = Inr (tasks @ List.map_filter (node_record sm cm proj bt bs)
                           (walks (n # anc) (as_list (topic n))))"
      using None m by (intro "1.IH"(1) [OF b refl]) (simp_all add: parent_get_def)
    with b None show ?thesis
      by (simp add: parse_node.simps walk.simps)
  next
    case (Some t)
    define r where "r = \<lparr> task = t, project = proj,
                 type = py_or (mapping_get sm (at_shape n))
                          (inherited (\<lambda>a. mapping_get sm (at_shape a)) bt anc),
                 status = py_or (mapping_get cm (at_bgColor n))
                          (inherited (\<lambda>a. mapping_get cm (at_bgColor a)) bs anc),
                 worker = eicon_id n \<rparr>"
    have b: "build_result cfg n proj parent = Inr r"
      using Some "1.prems" by (simp add: build_result_def r_def)
    have "parse_topics cfg (tasks @ [r]) (as_list (topic n)) proj (Some r)
          = Inr ((tasks @ [r]) @ List.map_filter (node_record sm cm proj bt bs)
                           (walks (n # anc) (as_list (topic n))))"
      using Some m by (intro "1.IH"(2) [OF b]) (simp_all add: parent_get_def r_def)
    with b Some show ?thesis
      by (simp add: parse_node.simps walk.simps r_def)
  qed
next
  case (2 cfg tasks proj result)
  show ?case by simp
next
  case (3 cfg tasks t ts proj result)
  have a: "parse_node cfg tasks t proj result
           = Inr (tasks @ List.map_filter (node_record sm cm proj bt bs) (walk anc t))"
    using "3.prems" by (intro "3.IH"(1))
  have "parse_topics cfg (tasks @ List.map_filter (node_record sm cm proj bt bs) (walk anc t))
           ts proj result
        = Inr ((tasks @ List.map_filter (node_record sm cm proj bt bs) (walk anc t))
               @ List.map_filter (node_record sm cm proj bt bs) (walks anc ts))"
    using "3.prems" by (intro "3.IH"(2) [OF a])
  with a show ?case
    by (simp add: List.map_filter_def)
qed

lemma py_or_resolve:
  "py_or (mapping_get m k) y = (case resolve m k of Some v \<Rightarrow> Some v | None \<Rightarrow> y)"
  by (simp add: py_or_def resolve_def split: option.splits)

lemma inherited_nearest:
  "inherited (\<lambda>a. mapping_get m (key a)) None ch
   = nearest_resolved (\<lambda>a. resolve m (key a)) (takeWhile (\<lambda>a. at_text a \<noteq> None) ch)"
  by (induction ch) (simp_all add: py_or_resolve)

lemma node_record_nearest:
  "at_text x = Some t \<Longrightarrow>
   node_record sm cm proj None None (x, ch)
   = Some \<lparr> task = t, project = proj,
            type = nearest_resolved (\<lambda>a. resolve sm (at_shape a))
                     (x # takeWhile (\<lambda>a. at_text a \<noteq> None) ch),
            status = nearest_resolved (\<lambda>a. resolve cm (at_bgColor a))
                     (x # takeWhile (\<lambda>a. at_text a \<noteq> None) ch),
            worker = eicon_id x \<rparr>"
  by (simp add: inherited_nearest py_or_resolve)

lemmas run_simps = parse_node.simps build_result_def py_or_def mapping_get_def parent_get_def
  eicon_id_def

lemma run_root:
  "parse_node ex_cfg [] ex_root ''P'' None
   = Inr [rec_P, \<lparr>task = ''g'', project = ''P'', type = None, status = None, worker = None\<rparr>]"
  by (simp add: tree_defs run_simps)

lemma run_full:
  "parse_node ex_cfg [] ex_full ''P'' None
   = Inr [rec_P,
          \<lparr>task = ''m'', project = ''P'', type = Some ''bug'', status = Some ''complete'', worker = None\<rparr>,
          \<lparr>task = ''k'', project = ''P'', type = Some ''bug'', status = Some ''complete'', worker = None\<rparr>]"
  by (simp add: tree_defs run_simps)

lemma walk_root:
  "walk [] ex_root = [(ex_root, []), (ex_mid, [ex_root]), (ex_leaf, [ex_mid, ex_root])]"
  by (simp add: walk.simps tree_defs)

lemma preorder_root: "preorder ex_root = [ex_root, ex_mid, ex_leaf]"
  by (simp add: preorder.simps tree_defs)

lemma walk_full:
  "walk [] ex_full
   = [(ex_full, []), (Node (Some ''m'') None None None (Single ex_kid), [ex_full]),
      (ex_kid, [Node (Some ''m'') None None None (Single ex_kid), ex_full])]"
  by (simp add: walk.simps tree_defs)

lemma preorder_full:
  "preorder ex_full = [ex_full, Node (Some ''m'') None None None (Single ex_kid), ex_kid]"
  by (simp add: preorder.simps tree_defs)

text \<open>
  Claim C1, as amended. With both mapping tables present, the flattened tree is the sequence
  of the records of the nodes with a text, in traversal order, and the type (resp. status)
  of each record is the node's own resolved value or else that of the nearest ancestor that
  resolves one, the search going up the ancestors only as far as they all have a text; it
  is absent when none of these nodes resolves a value. An ancestor without a text cuts the
  chain. Where every ancestor has a text, this is the whole chain of ancestors.
\<close>

theorem inherit_from_nearest_ancestor:
  assumes "shape_type_mapping cfg = Some sm" and "color_status_mapping cfg = Some cm"
  shows "parse_node cfg [] root proj None
         = Inr (List.map_filter (node_record sm cm proj None None) (walk [] root))
     \<and> (\<forall>(x, ch) \<in> set (walk [] root). \<forall>t. at_text x = Some t \<longrightarrow>
          (\<exists>r. node_record sm cm proj None None (x, ch) = Some r
             \<and> task r = t
             \<and> type r = nearest_resolved (\<lambda>a. resolve sm (at_shape a))
                          (x # takeWhile (\<lambda>a. at_text a \<noteq> None) ch)
             \<and> status r = nearest_resolved (\<lambda>a. resolve cm (at_bgColor a))
                          (x # takeWhile (\<lambda>a. at_text a \<noteq> None) ch)))"
proof
  show "parse_node cfg [] root proj None
         = Inr (List.map_filter (node_record sm cm proj None None) (walk [] root))"
    using parse_walk(1) [OF assms, of None None "[]" None "[]" root proj]
    by (simp add: parent_get_def)
next
  show "\<forall>(x, ch) \<in> set (walk [] root). \<forall>t. at_text x = Some t \<longrightarrow>
          (\<exists>r. node_record sm cm proj None None (x, ch) = Some r
             \<and> task r = t
             \<and> type r = nearest_resolved (\<lambda>a. resolve sm (at_shape a))
                          (x # takeWhile (\<lambda>a. at_text a \<noteq> None) ch)
             \<and> status r = nearest_resolved (\<lambda>a. resolve cm (at_bgColor a))
                          (x # takeWhile (\<lambda>a. at_text a \<noteq> None) ch))"
    using node_record_nearest by fastforce
qed

theorem inherit_from_nearest_ancestor_witness:
  "shape_type_mapping ex_cfg = Some [''rect'' \<mapsto> ''bug'']
   \<and> color_status_mapping ex_cfg = Some [''#ff0000'' \<mapsto> ''complete'']
   \<and> (ex_kid, [Node (Some ''m'') None None None (Single ex_kid), ex_full])
        \<in> set (walk [] ex_full)
   \<and> at_text ex_kid = Some ''k''
   \<and> (\<exists>r. node_record [''rect'' \<mapsto> ''bug''] [''#ff0000'' \<mapsto> ''complete''] ''P'' None None
             (ex_kid, [Node (Some ''m'') None None None (Single ex_kid), ex_full]) = Some r
          \<and> task r = ''k'' \<and> type r = Some ''bug'' \<and> status r = Some ''complete'')"
proof -
  have a: "shape_type_mapping ex_cfg = Some [''rect'' \<mapsto> ''bug'']"
    and b: "color_status_mapping ex_cfg = Some [''#ff0000'' \<mapsto> ''complete'']"
    by (simp_all add: ex_cfg_def)
  have c: "(ex_kid, [Node (Some ''m'') None None None (Single ex_kid), ex_full])
        \<in> set (walk [] ex_full)"
    by (simp add: walk_full)
  have d: "at_text ex_kid = Some ''k''"
    by (simp add: ex_kid_def)
  from inherit_from_nearest_ancestor [OF a b, of ex_full "''P''"] c d
  obtain r where r: "node_record [''rect'' \<mapsto> ''bug''] [''#ff0000'' \<mapsto> ''complete''] ''P'' None None
             (ex_kid, [Node (Some ''m'') None None None (Single ex_kid), ex_full]) = Some r"
    "task r = ''k''"
    "type r = nearest_resolved (\<lambda>a. resolve [''rect'' \<mapsto> ''bug''] (at_shape a))
        (ex_kid # takeWhile (\<lambda>a. at_text a \<noteq> None)
                    [Node (Some ''m'') None None None (Single ex_kid), ex_full])"
    "status r = nearest_resolved (\<lambda>a. resolve [''#ff0000'' \<mapsto> ''complete''] (at_bgColor a))
        (ex_kid # takeWhile (\<lambda>a. at_text a \<noteq> None)
                    [Node (Some ''m'') None None None (Single ex_kid), ex_full])"
    by fast
  have "type r = Some ''bug''"
    using r(3) by (simp add: tree_defs resolve_def py_or_def mapping_get_def)
  moreover have "status r = Some ''complete''"
    using r(4) by (simp add: tree_defs resolve_def py_or_def mapping_get_def)
  ultimately show ?thesis using a b c d r(1,2) by blast
qed

text \<open>
  Claim C1 as stated fails below a node without a text: in \<open>ex_root\<close> the leaf has no shape,
  its parent has no text, and the root resolves the type \<^verbatim>\<open>bug\<close>; the leaf's record has no
  type.
\<close>

theorem inherit_through_skipped_counterexample:
  "parse_node ex_cfg [] ex_root ''P'' None
     = Inr [rec_P, \<lparr>task = ''g'', project = ''P'', type = None, status = None, worker = None\<rparr>]
   \<and> walk [] ex_root = [(ex_root, []), (ex_mid, [ex_root]), (ex_leaf, [ex_mid, ex_root])]
   \<and> resolve [''rect'' \<mapsto> ''bug''] (at_shape ex_leaf) = None
   \<and> nearest_resolved (\<lambda>a. resolve [''rect'' \<mapsto> ''bug''] (at_shape a)) [ex_mid, ex_root]
       = Some ''bug''"
  by (simp add: run_root walk_root)
     (simp add: tree_defs resolve_def py_or_def mapping_get_def)

text \<open>
  Claim C2, as amended. A node without a text produces no record and its children are all
  visited, with an empty parent: the result does not depend on the parent the node was
  given, and it is the pre-order sequence of the records of the descendants, each child
  taken as if it had no ancestor.
\<close>

theorem skipped_node_breaks_inheritance:
  assumes "at_text n = None"
  shows "parse_node cfg tasks n proj parent = parse_topics cfg tasks (as_list (topic n)) proj None
     \<and> parse_node cfg tasks n proj parent = parse_node cfg tasks n proj None
     \<and> (\<forall>sm cm. shape_type_mapping cfg = Some sm \<and> color_status_mapping cfg = Some cm \<longrightarrow>
          parse_node cfg tasks n proj parent
          = Inr (tasks @ List.map_filter (node_record sm cm proj None None)
                           (walks [] (as_list (topic n)))))"
proof -
  have b: "\<And>p. build_result cfg n proj p = Inl KeyError"
    using assms by (simp add: build_result_def)
  have 1: "\<And>p. parse_node cfg tasks n proj p
              = parse_topics cfg tasks (as_list (topic n)) proj None"
    by (simp add: parse_node.simps b)
  have 3: "parse_topics cfg tasks (as_list (topic n)) proj None
          = Inr (tasks @ List.map_filter (node_record sm cm proj None None)
                           (walks [] (as_list (topic n))))"
    if "shape_type_mapping cfg = Some sm" "color_status_mapping cfg = Some cm" for sm cm
    using parse_walk(2) [OF that, of None None "[]" None tasks "as_list (topic n)" proj]
    by (simp add: parent_get_def)
  from 1 3 show ?thesis by simp
qed

theorem skipped_node_breaks_inheritance_witness:
  "at_text ex_mid = None
   \<and> parse_node ex_cfg [] ex_mid ''P'' (Some rec_P) = parse_node ex_cfg [] ex_mid ''P'' None
   \<and> parse_node ex_cfg [] ex_mid ''P'' (Some rec_P)
      = Inr [\<lparr>task = ''g'', project = ''P'', type = None, status = None, worker = None\<rparr>]"
proof -
  have a: "at_text ex_mid = None"
    by (simp add: ex_mid_def)
  have e: "parse_node ex_cfg [] ex_mid ''P'' None
      = Inr [\<lparr>task = ''g'', project = ''P'', type = None, status = None, worker = None\<rparr>]"
    by (simp add: tree_defs run_simps)
  from skipped_node_breaks_inheritance [OF a, of ex_cfg "[]" "''P''" "Some rec_P"]
  have "parse_node ex_cfg [] ex_mid ''P'' (Some rec_P) = parse_node ex_cfg [] ex_mid ''P'' None"
    by blast
  with a e show ?thesis by simp
qed

text \<open>
  Claim C2 as stated fails: visited under the intended parent \<open>rec_P\<close>, the child of the node
  without a text would carry the type and status of \<open>rec_P\<close>; the code gives it neither.
\<close>

theorem children_of_skipped_counterexample:
  "at_text ex_mid = None
   \<and> parse_node ex_cfg [] ex_mid ''P'' (Some rec_P)
      = Inr [\<lparr>task = ''g'', project = ''P'', type = None, status = None, worker = None\<rparr>]
   \<and> parse_topics ex_cfg [] (as_list (topic ex_mid)) ''P'' (Some rec_P)
      = Inr [\<lparr>task = ''g'', project = ''P'', type = Some ''bug'', status = Some ''complete'',
              worker = None\<rparr>]"
  by (simp add: tree_defs run_simps)

lemma build_result_project: "build_result cfg n proj parent = Inr r \<Longrightarrow> project r = proj"
  by (auto simp: build_result_def split: option.splits)

lemma parse_appends:
  "parse_node cfg tasks n proj parent = Inr tasks' \<Longrightarrow>
     \<exists>recs. tasks' = tasks @ recs \<and> (\<forall>r\<in>set recs. project r = proj)"
  "parse_topics cfg tasks ns proj result = Inr tasks' \<Longrightarrow>
     \<exists>recs. tasks' = tasks @ recs \<and> (\<forall>r\<in>set recs. project r = proj)"
proof (induction cfg tasks n proj parent and cfg tasks ns proj result
       arbitrary: tasks' and tasks' rule: parse_node_parse_topics.induct)
  case (1 cfg tasks n proj parent)
  show ?case
  proof (cases "build_result cfg n proj parent")
    case (Inl e)
    with "1.prems" have e: "e = KeyError"
      and p: "parse_topics cfg tasks (as_list (topic n)) proj None = Inr tasks'"
      by (auto simp: parse_node.simps split: if_splits)
    from "1.IH"(1) [OF Inl e p] show ?thesis .
  next
    case (Inr r)
    with "1.prems" have
      p: "parse_topics cfg (tasks @ [r]) (as_list (topic n)) proj (Some r) = Inr tasks'"
      by (simp add: parse_node.simps)
    from "1.IH"(2) [OF Inr p] obtain recs where
      "tasks' = (tasks @ [r]) @ recs" "\<forall>x\<in>set recs. project x = proj" by blast
    with build_result_project [OF Inr] have
      "tasks' = tasks @ (r # recs) \<and> (\<forall>x\<in>set (r # recs). project x = proj)" by simp
    then show ?thesis by blast
  qed
next
  case (2 cfg tasks proj result)
  then show ?case by simp
next
  case (3 cfg tasks t ts proj result)
  from "3.prems" obtain mid where
    a: "parse_node cfg tasks t proj result = Inr mid"
    and b: "parse_topics cfg mid ts proj result = Inr tasks'"
    by (auto split: sum.splits)
  from "3.IH"(1) [OF a] obtain r1 where
    r1: "mid = tasks @ r1" "\<forall>x\<in>set r1. project x = proj" by blast
  from "3.IH"(2) [OF a b] obtain r2 where
    r2: "tasks' = mid @ r2" "\<forall>x\<in>set r2. project x = proj" by blast
  from r1 r2 have "tasks' = tasks @ (r1 @ r2) \<and> (\<forall>x\<in>set (r1 @ r2). project x = proj)"
    by auto
  then show ?case by blast
qed

text \<open>
  Claim C5. Whenever a call of \<^verbatim>\<open>_parse_node\<close> returns, it has kept the records it was given
  and appended records whose project is the label passed to the call, at any depth; and with
  both mapping tables present the call does return.
\<close>

theorem project_is_call_label:
  "(\<forall>tasks'. parse_node cfg tasks n proj parent = Inr tasks' \<longrightarrow>
      (\<exists>recs. tasks' = tasks @ recs \<and> (\<forall>r\<in>set recs. project r = proj)))
   \<and> (\<forall>sm cm. shape_type_mapping cfg = Some sm \<and> color_status_mapping cfg = Some cm \<longrightarrow>
        (\<exists>tasks'. parse_node cfg tasks n proj parent = Inr tasks'))"
proof -
  have "\<exists>tasks'. parse_node cfg tasks n proj parent = Inr tasks'"
    if "shape_type_mapping cfg = Some sm" "color_status_mapping cfg = Some cm" for sm cm
    using parse_walk(1) [OF that, of parent "parent_get type parent" "[]"
        "parent_get status parent" tasks n proj]
    by simp
  then show ?thesis using parse_appends(1) [of cfg tasks n proj parent] by blast
qed

theorem project_is_call_label_witness:
  "parse_node ex_cfg [] ex_root ''P'' None
     = Inr ([] @ [rec_P, \<lparr>task = ''g'', project = ''P'', type = None, status = None, worker = None\<rparr>])
   \<and> project rec_P = ''P''
   \<and> project \<lparr>task = ''g'', project = ''P'', type = None, status = None, worker = None\<rparr> = ''P''"
  using project_is_call_label [of ex_cfg "[]" ex_root "''P''" None] run_root
  by (simp add: rec_P_def)

lemma labels_map_filter:
  "map (\<lambda>r. (task r, worker r)) (List.map_filter (node_record sm cm proj bt bs) xs)
   = List.map_filter (\<lambda>x. map_option (\<lambda>t. (t, eicon_id x)) (at_text x)) (map fst xs)"
  by (induction xs) (auto simp: List.map_filter_simps split: option.splits)

lemma length_map_filter_record:
  "length (List.map_filter (node_record sm cm proj bt bs) xs)
   = length (filter (\<lambda>x. at_text x \<noteq> None) (map fst xs))"
  by (induction xs) (auto simp: List.map_filter_simps split: option.splits)

text \<open>
  Claim C7, as amended. With both mapping tables present, flattening appends one record per
  node that has a text, in pre-order document order over the normalised children: the texts
  and workers of the records are those of these nodes in that order. When every node has a
  text, that is one record per node.
\<close>

theorem flatten_preorder:
  assumes "shape_type_mapping cfg = Some sm" and "color_status_mapping cfg = Some cm"
  shows "\<exists>recs. parse_node cfg tasks n proj parent = Inr (tasks @ recs)
      \<and> map (\<lambda>r. (task r, worker r)) recs
          = List.map_filter (\<lambda>x. map_option (\<lambda>t. (t, eicon_id x)) (at_text x)) (preorder n)
      \<and> length recs = length (filter (\<lambda>x. at_text x \<noteq> None) (preorder n))
      \<and> ((\<forall>x\<in>set (preorder n). at_text x \<noteq> None) \<longrightarrow> length recs = length (preorder n))"
proof -
  let ?recs = "List.map_filter
      (node_record sm cm proj (parent_get type parent) (parent_get status parent)) (walk [] n)"
  have 1: "parse_node cfg tasks n proj parent = Inr (tasks @ ?recs)"
    using parse_walk(1) [OF assms, of parent "parent_get type parent" "[]"
        "parent_get status parent" tasks n proj]
    by simp
  have 2: "map (\<lambda>r. (task r, worker r)) ?recs
          = List.map_filter (\<lambda>x. map_option (\<lambda>t. (t, eicon_id x)) (at_text x)) (preorder n)"
    by (simp add: labels_map_filter map_fst_walk)
  have 3: "length ?recs = length (filter (\<lambda>x. at_text x \<noteq> None) (preorder n))"
    by (simp add: length_map_filter_record map_fst_walk)
  have 4: "(\<forall>x\<in>set (preorder n). at_text x \<noteq> None) \<longrightarrow> length ?recs = length (preorder n)"
    using 3 by (simp add: filter_True del: not_None_eq)
  from 1 2 3 4 show ?thesis by blast
qed

theorem flatten_preorder_witness:
  "shape_type_mapping ex_cfg = Some [''rect'' \<mapsto> ''bug'']
   \<and> color_status_mapping ex_cfg = Some [''#ff0000'' \<mapsto> ''complete'']
   \<and> (\<exists>recs. parse_node ex_cfg [] ex_full ''P'' None = Inr ([] @ recs)
         \<and> map (\<lambda>r. (task r, worker r)) recs = [(''P'', Some ''ann''), (''m'', None), (''k'', None)]
         \<and> length recs = 3)"
proof -
  have a: "shape_type_mapping ex_cfg = Some [''rect'' \<mapsto> ''bug'']"
    and b: "color_status_mapping ex_cfg = Some [''#ff0000'' \<mapsto> ''complete'']"
    by (simp_all add: ex_cfg_def)
  from flatten_preorder [OF a b, of "[]" ex_full "''P''" None] obtain recs where
    r: "parse_node ex_cfg [] ex_full ''P'' None = Inr ([] @ recs)"
      "map (\<lambda>r. (task r, worker r)) recs
        = List.map_filter (\<lambda>x. map_option (\<lambda>t. (t, eicon_id x)) (at_text x)) (preorder ex_full)"
      "length recs = length (filter (\<lambda>x. at_text x \<noteq> None) (preorder ex_full))"
    by blast
  have m: "map (\<lambda>r. (task r, worker r)) recs = [(''P'', Some ''ann''), (''m'', None), (''k'', None)]"
    using r(2) by (simp add: preorder_full List.map_filter_simps) (simp add: tree_defs eicon_id_def)
  have l: "length recs = 3"
    using r(3) by (simp add: preorder_full) (simp add: tree_defs)
  show ?thesis
    by (intro conjI exI [of _ recs]) (rule a b r(1) m l)+
qed

text \<open>
  Claim C7 as stated fails on a tree with a node without a text: \<open>ex_root\<close> has three nodes and
  flattens to two records.
\<close>

theorem one_record_per_node_counterexample:
  "length (preorder ex_root) = 3
   \<and> map_sum id length (parse_node ex_cfg [] ex_root ''P'' None) = Inr 2"
  by (simp add: preorder_root run_root)

text \<open>
  Claim C10. With both mapping tables present, building the record of a node fails exactly
  when the node has no text, and a call appends a record for the node itself exactly then
  not; a node with a text gets a record whatever else is missing, a missing shape or colour
  giving the parent's type or status (absent when the parent has none) and a missing
  assignee element an absent worker.
\<close>

theorem skipped_iff_text_missing:
  assumes "shape_type_mapping cfg = Some sm" and "color_status_mapping cfg = Some cm"
  shows "(build_result cfg n proj parent = Inl KeyError) = (at_text n = None)
     \<and> (\<exists>recs. parse_node cfg tasks n proj parent = Inr (tasks @ recs)
           \<and> length recs = (if at_text n = None then 0 else 1)
               + length (filter (\<lambda>x. at_text x \<noteq> None) (preorder_list (as_list (topic n)))))
     \<and> (\<forall>t. at_text n = Some t \<longrightarrow>
          (\<exists>r rest. parse_node cfg tasks n proj parent = Inr (tasks @ r # rest)
             \<and> task r = t
             \<and> type r = py_or (mapping_get sm (at_shape n)) (parent_get type parent)
             \<and> status r = py_or (mapping_get cm (at_bgColor n)) (parent_get status parent)
             \<and> worker r = eicon_id n
             \<and> (at_shape n = None \<longrightarrow> type r = parent_get type parent)
             \<and> (at_bgColor n = None \<longrightarrow> status r = parent_get status parent)
             \<and> (eicon n = None \<longrightarrow> worker r = None)))"
proof -
  let ?f = "node_record sm cm proj (parent_get type parent) (parent_get status parent)"
  have p: "parse_node cfg tasks n proj parent = Inr (tasks @ List.map_filter ?f (walk [] n))"
    using parse_walk(1) [OF assms, of parent "parent_get type parent" "[]"
        "parent_get status parent" tasks n proj]
    by simp
  have 1: "(build_result cfg n proj parent = Inl KeyError) = (at_text n = None)"
    using assms by (simp add: build_result_def split: option.splits)
  have 2: "length (List.map_filter ?f (walk [] n)) = (if at_text n = None then 0 else 1)
               + length (filter (\<lambda>x. at_text x \<noteq> None) (preorder_list (as_list (topic n))))"
    by (simp add: length_map_filter_record map_fst_walk preorder.simps del: not_None_eq)
  have 3: "\<exists>r rest. parse_node cfg tasks n proj parent = Inr (tasks @ r # rest)
             \<and> task r = t
             \<and> type r = py_or (mapping_get sm (at_shape n)) (parent_get type parent)
             \<and> status r = py_or (mapping_get cm (at_bgColor n)) (parent_get status parent)
             \<and> worker r = eicon_id n
             \<and> (at_shape n = None \<longrightarrow> type r = parent_get type parent)
             \<and> (at_bgColor n = None \<longrightarrow> status r = parent_get status parent)
             \<and> (eicon n = None \<longrightarrow> worker r = None)" if t: "at_text n = Some t" for t
  proof -
    let ?r = "\<lparr> task = t, project = proj,
                 type = py_or (mapping_get sm (at_shape n)) (parent_get type parent),
                 status = py_or (mapping_get cm (at_bgColor n)) (parent_get status parent),
                 worker = eicon_id n \<rparr>"
    have "parse_node cfg tasks n proj parent
          = Inr (tasks @ ?r # List.map_filter ?f (walks [n] (as_list (topic n))))"
      using p t by (simp add: walk.simps List.map_filter_simps)
    moreover have "at_shape n = None \<longrightarrow> type ?r = parent_get type parent"
      by (simp add: py_or_def mapping_get_def)
    moreover have "at_bgColor n = None \<longrightarrow> status ?r = parent_get status parent"
      by (simp add: py_or_def mapping_get_def)
    moreover have "eicon n = None \<longrightarrow> worker ?r = None"
      by (simp add: eicon_id_def)
    ultimately show ?thesis
      by (intro exI [of _ ?r] exI [of _ "List.map_filter ?f (walks [n] (as_list (topic n)))"]) simp
  qed
  from p 1 2 3 show ?thesis by blast
qed

theorem skipped_iff_text_missing_witness:
  "shape_type_mapping ex_cfg = Some [''rect'' \<mapsto> ''bug'']
   \<and> color_status_mapping ex_cfg = Some [''#ff0000'' \<mapsto> ''complete'']
   \<and> at_text ex_mid = None
   \<and> build_result ex_cfg ex_mid ''P'' (Some rec_P) = Inl KeyError
   \<and> at_text ex_leaf = Some ''g'' \<and> at_shape ex_leaf = None \<and> eicon ex_leaf = None
   \<and> (\<exists>r rest. parse_node ex_cfg [] ex_leaf ''P'' (Some rec_P) = Inr ([] @ r # rest)
         \<and> task r = ''g'' \<and> type r = Some ''bug'' \<and> worker r = None)"
proof -
  have a: "shape_type_mapping ex_cfg = Some [''rect'' \<mapsto> ''bug'']"
    and b: "color_status_mapping ex_cfg = Some [''#ff0000'' \<mapsto> ''complete'']"
    by (simp_all add: ex_cfg_def)
  have c: "at_text ex_mid = None"
    by (simp add: ex_mid_def)
  have d: "at_text ex_leaf = Some ''g''" "at_shape ex_leaf = None" "eicon ex_leaf = None"
    by (simp_all add: ex_leaf_def)
  have e: "parent_get type (Some rec_P) = Some ''bug''"
    by (simp add: parent_get_def rec_P_def)
  from skipped_iff_text_missing [OF a b, of ex_mid "''P''" "Some rec_P" "[]"] c
  have 1: "build_result ex_cfg ex_mid ''P'' (Some rec_P) = Inl KeyError"
    by blast
  from skipped_iff_text_missing [OF a b, of ex_leaf "''P''" "Some rec_P" "[]"] d e
  have 2: "\<exists>r rest. parse_node ex_cfg [] ex_leaf ''P'' (Some rec_P) = Inr ([] @ r # rest)
         \<and> task r = ''g'' \<and> type r = Some ''bug'' \<and> worker r = None"
    by metis
  from a b c d 1 2 show ?thesis by blast
qed

end
